theory Spec2Isabelle
  imports Main "HOL-Library.AList"
begin

section \<open>Python strings and POSIX paths\<close>

text \<open>
  The build script \<^verbatim>\<open>setup.py\<close> works on Python strings and on paths of
  \<^verbatim>\<open>os.path\<close> (the POSIX flavour, the one whose separator is the slash of the
  spec's \<^verbatim>\<open>build/...\<close>). Strings are character lists.
\<close>

definition startswith :: "string \<Rightarrow> string \<Rightarrow> bool" where
  "startswith s p = (take (length p) s = p)"

definition endswith :: "string \<Rightarrow> string \<Rightarrow> bool" where
  "endswith s p = (length p \<le> length s \<and> drop (length s - length p) s = p)"

text \<open>\<^verbatim>\<open>s.lstrip(chars)\<close>: every leading character that occurs in \<^verbatim>\<open>chars\<close> goes.\<close>

definition lstrip :: "string \<Rightarrow> string \<Rightarrow> string" where
  "lstrip s chars = dropWhile (\<lambda>c. c \<in> set chars) s"

text \<open>\<^verbatim>\<open>s.rstrip(chars)\<close>, the same from the right end.\<close>

definition rstrip :: "string \<Rightarrow> string \<Rightarrow> string" where
  "rstrip s chars = rev (dropWhile (\<lambda>c. c \<in> set chars) (rev s))"

text \<open>
  \<^verbatim>\<open>s.split(sep)\<close> for a one-character separator: the fields between the
  separators, empty ones included; the empty string gives one empty field.
\<close>

fun split_acc :: "char \<Rightarrow> string \<Rightarrow> string \<Rightarrow> string list" where
  "split_acc sep acc [] = [rev acc]"
| "split_acc sep acc (c # cs) =
     (if c = sep then rev acc # split_acc sep [] cs else split_acc sep (c # acc) cs)"

definition split :: "string \<Rightarrow> char \<Rightarrow> string list" where
  "split s sep = split_acc sep [] s"

text \<open>The decimal digits of a non-negative integer, as \<^verbatim>\<open>str.format\<close> prints them.\<close>

definition digit :: "nat \<Rightarrow> char" where
  "digit d = ''0123456789'' ! d"

fun str_nat :: "nat \<Rightarrow> string" where
  "str_nat n = (if n < 10 then [digit n] else str_nat (n div 10) @ [digit (n mod 10)])"

declare str_nat.simps [simp del]

text \<open>
  \<^verbatim>\<open>posixpath.join(a, b)\<close>: a second component that starts with a slash replaces
  the first; otherwise the two are put together with one slash between them, unless the
  first is empty or ends in one already.
\<close>

definition join :: "string \<Rightarrow> string \<Rightarrow> string" where
  "join a b =
     (if startswith b ''/'' then b
      else if a = [] \<or> endswith a ''/'' then a @ b
      else a @ ''/'' @ b)"

text \<open>\<^verbatim>\<open>os.environ.get(key, default)\<close> on the environment as a map.\<close>

type_synonym environ = "string \<rightharpoonup> string"

definition environ_get :: "environ \<Rightarrow> string \<Rightarrow> string \<Rightarrow> string" where
  "environ_get env key dflt = (case env key of None \<Rightarrow> dflt | Some v \<Rightarrow> v)"

section \<open>The build-directory naming helper\<close>

text \<open>
  \<^verbatim>\<open>
  def distutils_dir_name(dname):
      f = "{dirname}.{platform}-{version[0]}.{version[1]}"
      return os.path.join('build', f.format(dirname=dname,
                                            platform=sysconfig.get_platform(),
                                            version=sys.version_info))
  \<close>
  The platform tag and the interpreter version are read from the running interpreter;
  the model takes them as arguments. \<^verbatim>\<open>sys.version_info\<close> is a tuple of
  non-negative integers whose first two entries are the major and the minor version.
\<close>

record version_info =
  major :: nat
  minor :: nat
  micro :: nat

definition distutils_dir_name :: "string \<Rightarrow> version_info \<Rightarrow> string \<Rightarrow> string" where
  "distutils_dir_name platform version dname =
     join ''build''
       (dname @ ''.'' @ platform @ ''-'' @ str_nat (major version) @ ''.''
          @ str_nat (minor version))"

section \<open>The release version\<close>

text \<open>
  \<^verbatim>\<open>version = os.environ.get('GIT_DESCRIBE_TAG', '0.0.0.dev0').lstrip('v')\<close>
\<close>

definition version :: "environ \<Rightarrow> string" where
  "version env = lstrip (environ_get env ''GIT_DESCRIBE_TAG'' ''0.0.0.dev0'') ''v''"

text \<open>
  The spec's reading of the same line, for comparison: one leading \<^verbatim>\<open>v\<close> is
  removed if there is one, and nothing else changes.
\<close>

definition spec_strip_one_v :: "string \<Rightarrow> string" where
  "spec_strip_one_v t = (if startswith t ''v'' then drop 1 t else t)"

section \<open>More of \<^verbatim>\<open>str\<close> and \<^verbatim>\<open>os.path\<close>\<close>

text \<open>\<^verbatim>\<open>sep.join(xs)\<close> on strings.\<close>

fun str_join :: "string \<Rightarrow> string list \<Rightarrow> string" where
  "str_join sep [] = []"
| "str_join sep [x] = x"
| "str_join sep (x # y # ys) = x @ sep @ str_join sep (y # ys)"

text \<open>
  \<^verbatim>\<open>s.replace(old, new)\<close>: the occurrences of \<^verbatim>\<open>old\<close> are found from the left
  and do not overlap, and every one of them is replaced, wherever it stands. An empty
  \<^verbatim>\<open>old\<close> matches before every character and at the end.
\<close>

function replace :: "string \<Rightarrow> string \<Rightarrow> string \<Rightarrow> string" where
  "replace s old new =
     (if old = [] then new @ concat (map (\<lambda>c. c # new) s)
      else if s = [] then []
      else if startswith s old then new @ replace (drop (length old) s) old new
      else hd s # replace (tl s) old new)"
  by pat_completeness auto
termination
  by (relation "measure (\<lambda>(s, old, new). length s)") auto

declare replace.simps [simp del]

text \<open>
  \<^verbatim>\<open>posixpath.dirname(p)\<close>: everything up to the last slash; the slashes at the end
  of that head are stripped unless the head is made of slashes only.
\<close>

definition dirname :: "string \<Rightarrow> string" where
  "dirname p =
     (let head = rev (dropWhile (\<lambda>c. c \<noteq> CHR ''/'') (rev p))
      in if head \<noteq> [] \<and> head \<noteq> replicate (length head) CHR ''/''
         then rstrip head ''/'' else head)"

text \<open>
  \<^verbatim>\<open>posixpath.normpath(path)\<close>: empty components and \<^verbatim>\<open>.\<close> go, a
  \<^verbatim>\<open>..\<close> removes the component before it (it stays at the start of a relative
  path and is dropped at the root); exactly two leading slashes are kept, any other
  number of them is one.
\<close>

definition norm_step :: "nat \<Rightarrow> string list \<Rightarrow> string \<Rightarrow> string list" where
  "norm_step initial_slashes new_comps cmp =
     (if cmp = [] \<or> cmp = ''.'' then new_comps
      else if cmp \<noteq> ''..'' \<or> (initial_slashes = 0 \<and> new_comps = [])
              \<or> (new_comps \<noteq> [] \<and> last new_comps = ''..'')
           then new_comps @ [cmp]
      else if new_comps \<noteq> [] then butlast new_comps
      else new_comps)"

definition normpath :: "string \<Rightarrow> string" where
  "normpath path =
     (if path = [] then ''.''
      else
        let initial_slashes =
              (if startswith path ''/''
               then (if startswith path ''//'' \<and> \<not> startswith path ''///'' then 2 else 1)
               else (0::nat));
            comps = foldl (norm_step initial_slashes) [] (split path CHR ''/'');
            p = replicate initial_slashes CHR ''/'' @ str_join ''/'' comps
        in if p = [] then ''.'' else p)"

text \<open>\<^verbatim>\<open>posixpath.abspath(path)\<close>, with the working directory as an argument.\<close>

definition abspath :: "string \<Rightarrow> string \<Rightarrow> string" where
  "abspath getcwd path =
     normpath (if startswith path ''/'' then path else join getcwd path)"

section \<open>The file system\<close>

text \<open>
  A file system is a tree: a regular file with its bytes, or a directory with its named
  entries in the order the system lists them. A path names a node through its
  components, counted from the root.
\<close>

datatype node = File string | Dir "(string \<times> node) list"

fun is_dir :: "node \<Rightarrow> bool" where
  "is_dir (Dir es) = True"
| "is_dir (File d) = False"

fun lookup :: "node \<Rightarrow> string list \<Rightarrow> node option" where
  "lookup n [] = Some n"
| "lookup (File d) (c # cs) = None"
| "lookup (Dir es) (c # cs) =
     (case map_of es c of None \<Rightarrow> None | Some sub \<Rightarrow> lookup sub cs)"

text \<open>
  Creating a directory and all its missing parents. It fails (\<open>None\<close>) when a
  regular file stands where a directory is needed.
\<close>

fun mkdirs :: "node \<Rightarrow> string list \<Rightarrow> node option" where
  "mkdirs (File d) cs = None"
| "mkdirs (Dir es) [] = Some (Dir es)"
| "mkdirs (Dir es) (c # cs) =
     (case mkdirs (case map_of es c of None \<Rightarrow> Dir [] | Some sub \<Rightarrow> sub) cs of
        None \<Rightarrow> None
      | Some sub' \<Rightarrow> Some (Dir (AList.update c sub' es)))"

text \<open>
  Writing a regular file: its parent must be a directory and the name must not be
  one; a file of that name is replaced.
\<close>

fun write_file :: "node \<Rightarrow> string list \<Rightarrow> string \<Rightarrow> node option" where
  "write_file n [] d = None"
| "write_file (File d') (c # cs) d = None"
| "write_file (Dir es) [c] d =
     (case map_of es c of
        Some (Dir es') \<Rightarrow> None
      | _ \<Rightarrow> Some (Dir (AList.update c (File d) es)))"
| "write_file (Dir es) (c # c' # cs) d =
     (case map_of es c of
        None \<Rightarrow> None
      | Some sub \<Rightarrow>
          (case write_file sub (c' # cs) d of
             None \<Rightarrow> None
           | Some sub' \<Rightarrow> Some (Dir (AList.update c sub' es))))"

text \<open>Removing a directory tree; anything else at the path, or nothing, is left alone.\<close>

fun remove_tree :: "node \<Rightarrow> string list \<Rightarrow> node" where
  "remove_tree n [] = n"
| "remove_tree (File d) (c # cs) = File d"
| "remove_tree (Dir es) [c] =
     (case map_of es c of
        Some (Dir es') \<Rightarrow> Dir (AList.delete c es)
      | _ \<Rightarrow> Dir es)"
| "remove_tree (Dir es) (c # c' # cs) =
     (case map_of es c of
        None \<Rightarrow> Dir es
      | Some sub \<Rightarrow> Dir (AList.update c (remove_tree sub (c' # cs)) es))"

text \<open>
  \<^verbatim>\<open>os.walk(top)\<close>, top-down: the triple of a directory (its path, the names of
  its subdirectories, the names of its other entries) comes first, then the walks of its
  subdirectories in turn, each under the path \<^verbatim>\<open>join(top, name)\<close>. Every directory
  is entered, whatever its name. Something that is not a directory gives nothing.
\<close>

definition subdir_names :: "(string \<times> node) list \<Rightarrow> string list" where
  "subdir_names es = map fst (filter (\<lambda>e. is_dir (snd e)) es)"

definition file_names :: "(string \<times> node) list \<Rightarrow> string list" where
  "file_names es = map fst (filter (\<lambda>e. \<not> is_dir (snd e)) es)"

fun walk_tree :: "string \<Rightarrow> node \<Rightarrow> (string \<times> string list \<times> string list) list" where
  "walk_tree dirpath (File d) = []"
| "walk_tree dirpath (Dir es) =
     (dirpath, subdir_names es, file_names es)
       # concat (map (\<lambda>(name, sub). walk_tree (join dirpath name) sub) es)"

section \<open>Tokens, as the spec words them\<close>

text \<open>
  The spec's reading of the extra generator arguments, for comparison with the
  script's: the tokens of a string are its longest runs of characters that are not
  delimiters, so no token is empty. Whitespace is what \<^verbatim>\<open>str.split()\<close> and
  \<^verbatim>\<open>str.isspace\<close> take it to be in ASCII: space, tab, line feed, vertical tab, form
  feed, carriage return.
\<close>

definition is_whitespace :: "char \<Rightarrow> bool" where
  "is_whitespace c =
     (c = CHR '' '' \<or> c = CHR 0x09 \<or> c = CHR 0x0A \<or> c = CHR 0x0B \<or> c = CHR 0x0C
      \<or> c = CHR 0x0D)"

fun spec_tokens_acc :: "(char \<Rightarrow> bool) \<Rightarrow> string \<Rightarrow> string \<Rightarrow> string list" where
  "spec_tokens_acc delim acc [] = (if acc = [] then [] else [rev acc])"
| "spec_tokens_acc delim acc (c # cs) =
     (if delim c
      then (if acc = [] then [] else [rev acc]) @ spec_tokens_acc delim [] cs
      else spec_tokens_acc delim (c # acc) cs)"

definition spec_tokens :: "(char \<Rightarrow> bool) \<Rightarrow> string \<Rightarrow> string list" where
  "spec_tokens delim s = spec_tokens_acc delim [] s"

definition spec_whitespace_tokens :: "string \<Rightarrow> string list" where
  "spec_whitespace_tokens s = spec_tokens is_whitespace s"

section \<open>The process and what it does to the world\<close>

text \<open>
  The two kinds of build target: \<^verbatim>\<open>CMakeExtension(name, sourcedir)\<close>, and an
  ordinary \<^verbatim>\<open>Extension\<close> with its name, sources, library directories and
  libraries. The orchestrator tells them apart with \<^verbatim>\<open>isinstance\<close>.
\<close>

datatype extension =
    CMakeExtension string string
  | Extension string "string list" "string list" "string list"

text \<open>
  What the script does is recorded in a log, in order: a line printed, a directory
  tree created or removed, a child process started (its argument list, working
  directory and environment), an ordinary extension handed to the standard build, a
  file copied (source, destination, bytes).
\<close>

datatype event =
    Print string
  | Makedirs string
  | Rmtree string
  | Spawn "string list" string environ
  | StandardBuild extension
  | Mkpath string
  | CopyFile string string string

datatype error =
    SystemExit int
  | CalledProcessError int "string list"
  | OSError string
  | DistutilsFileError string
  | CompileError

record world =
  fs :: node
  getcwd :: string
  environ :: environ
  log :: "event list"

text \<open>
  The collaborators the script calls and does not define: \<^verbatim>\<open>shutil.which\<close>, a
  child process (it ends with an exit status, or cannot be started at all, and leaves the
  file system as it likes), the build of an ordinary extension by the base class, and
  \<^verbatim>\<open>cythonize\<close>. They are parameters of the model; each may depend on all of the
  world, the log included, so the same command may end differently the second time.
\<close>

datatype child_result = Exited int | NotStarted

record system =
  which :: "world \<Rightarrow> string \<Rightarrow> string option"
  child :: "world \<Rightarrow> string list \<Rightarrow> string \<Rightarrow> environ \<Rightarrow> child_result \<times> node"
  super_build_extension :: "world \<Rightarrow> extension \<Rightarrow> error option \<times> node"
  cythonize :: "extension list \<Rightarrow> extension list"

type_synonym 'a result = "(error \<times> world) + 'a"

text \<open>A path of the program as the components of the node it names.\<close>

definition resolve_from :: "string \<Rightarrow> string \<Rightarrow> string list" where
  "resolve_from cwd p = filter (\<lambda>c. c \<noteq> []) (split (abspath cwd p) CHR ''/'')"

definition resolve :: "world \<Rightarrow> string \<Rightarrow> string list" where
  "resolve w p = resolve_from (getcwd w) p"

definition path_exists :: "world \<Rightarrow> string \<Rightarrow> bool" where
  "path_exists w p = (lookup (fs w) (resolve w p) \<noteq> None)"

definition emit :: "event \<Rightarrow> world \<Rightarrow> world" where
  "emit e w = w\<lparr>log := log w @ [e]\<rparr>"

text \<open>\<^verbatim>\<open>os.makedirs(p)\<close>.\<close>

definition makedirs :: "world \<Rightarrow> string \<Rightarrow> world result" where
  "makedirs w p =
     (case mkdirs (fs w) (resolve w p) of
        None \<Rightarrow> Inl (OSError p, emit (Makedirs p) w)
      | Some t \<Rightarrow> Inr (emit (Makedirs p) (w\<lparr>fs := t\<rparr>)))"

text \<open>
  \<^verbatim>\<open>subprocess.check_call(args, cwd=..., env=...)\<close>: the child runs to its end;
  a status other than zero raises \<^verbatim>\<open>CalledProcessError\<close>. A program that cannot
  be started raises \<^verbatim>\<open>OSError\<close>, and no child has run.
\<close>

definition check_call :: "system \<Rightarrow> world \<Rightarrow> string list \<Rightarrow> string \<Rightarrow> environ \<Rightarrow> world result" where
  "check_call sys w args cwd env =
     (case child sys w args cwd env of
        (NotStarted, t) \<Rightarrow> Inl (OSError (case args of [] \<Rightarrow> [] | a # _ \<Rightarrow> a), w)
      | (Exited rc, t) \<Rightarrow>
          (let w' = emit (Spawn args cwd env) (w\<lparr>fs := t\<rparr>)
           in if rc \<noteq> 0 then Inl (CalledProcessError rc args, w') else Inr w'))"

text \<open>A loop whose body may raise: the first error ends it.\<close>

fun for_each :: "('a \<Rightarrow> 's \<Rightarrow> 'e + 's) \<Rightarrow> 'a list \<Rightarrow> 's \<Rightarrow> 'e + 's" where
  "for_each body [] st = Inr st"
| "for_each body (x # xs) st =
     (case body x st of Inl e \<Rightarrow> Inl e | Inr st' \<Rightarrow> for_each body xs st')"

section \<open>The build orchestrator\<close>

text \<open>
  \<^verbatim>\<open>
  class CMakeExtension(Extension):
      def __init__(self, name, sourcedir=''):
          Extension.__init__(self, name, sources=[])
          self.sourcedir = os.path.abspath(sourcedir)
  \<close>
\<close>

definition new_CMakeExtension :: "world \<Rightarrow> string \<Rightarrow> string \<Rightarrow> extension" where
  "new_CMakeExtension w name sourcedir = CMakeExtension name (abspath (getcwd w) sourcedir)"

text \<open>
  The command object \<^verbatim>\<open>self\<close> of \<^verbatim>\<open>CMakeBuildExt\<close>: the debug flag, the
  shared build-temp directory, and the base class's \<^verbatim>\<open>get_ext_fullpath\<close>, which the
  script calls and does not define.
\<close>

record build_ext =
  debug :: bool
  build_temp :: string
  get_ext_fullpath :: "string \<Rightarrow> string"

text \<open>
  \<^verbatim>\<open>
  output_dir = os.path.abspath(
      os.path.dirname(self.get_ext_fullpath(ext.name)))
  build_type = 'Debug' if self.debug else 'Release'
  cmake_args = [CMAKE_EXE,
                ext.sourcedir,
                '-DCMAKE_LIBRARY_OUTPUT_DIRECTORY=' + output_dir,
                '-DCMAKE_BUILD_TYPE=' + build_type]
  cmake_args.extend(
      [x for x in
       os.environ.get('CMAKE_COMMON_VARIABLES', '').split(' ')
       if x])
  \<close>
  \<^verbatim>\<open>CMAKE_EXE\<close> is a global of the module, set once when the script starts.
\<close>

definition output_dir :: "world \<Rightarrow> build_ext \<Rightarrow> string \<Rightarrow> string" where
  "output_dir w self name = abspath (getcwd w) (dirname (get_ext_fullpath self name))"

definition build_type :: "build_ext \<Rightarrow> string" where
  "build_type self = (if debug self then ''Debug'' else ''Release'')"

definition cmake_args :: "string \<Rightarrow> world \<Rightarrow> build_ext \<Rightarrow> string \<Rightarrow> string \<Rightarrow> string list" where
  "cmake_args CMAKE_EXE w self name sourcedir =
     [CMAKE_EXE,
      sourcedir,
      ''-DCMAKE_LIBRARY_OUTPUT_DIRECTORY='' @ output_dir w self name,
      ''-DCMAKE_BUILD_TYPE='' @ build_type self]
     @ filter (\<lambda>x. x \<noteq> [])
         (split (environ_get (environ w) ''CMAKE_COMMON_VARIABLES'' []) CHR '' '')"

text \<open>
  \<^verbatim>\<open>
  def build_extension(self, ext):
      if isinstance(ext, CMakeExtension):
          ...
          env = os.environ.copy()
          if not os.path.exists(self.build_temp):
              os.makedirs(self.build_temp)
          subprocess.check_call(cmake_args, cwd=self.build_temp, env=env)
          subprocess.check_call(['make', '-j', ext.name],
                                cwd=self.build_temp, env=env)
          print()
      else:
          super().build_extension(ext)
  \<close>
\<close>

fun build_extension :: "system \<Rightarrow> string \<Rightarrow> build_ext \<Rightarrow> extension \<Rightarrow> world \<Rightarrow> world result" where
  "build_extension sys CMAKE_EXE self (CMakeExtension name sourcedir) w =
     (let args = cmake_args CMAKE_EXE w self name sourcedir;
          env = environ w
      in case (if \<not> path_exists w (build_temp self) then makedirs w (build_temp self)
               else Inr w) of
           Inl e \<Rightarrow> Inl e
         | Inr w1 \<Rightarrow>
             (case check_call sys w1 args (build_temp self) env of
                Inl e \<Rightarrow> Inl e
              | Inr w2 \<Rightarrow>
                  (case check_call sys w2 [''make'', ''-j'', name] (build_temp self) env of
                     Inl e \<Rightarrow> Inl e
                   | Inr w3 \<Rightarrow> Inr (emit (Print []) w3))))"
| "build_extension sys CMAKE_EXE self (Extension name sources library_dirs libraries) w =
     (let ext = Extension name sources library_dirs libraries
      in case super_build_extension sys w ext of
           (Some e, t) \<Rightarrow> Inl (e, emit (StandardBuild ext) (w\<lparr>fs := t\<rparr>))
         | (None, t) \<Rightarrow> Inr (emit (StandardBuild ext) (w\<lparr>fs := t\<rparr>)))"

text \<open>
  Modelled from the spec: the loop over the descriptors is the base class's
  \<^verbatim>\<open>build_extensions\<close>, which is not in the script. The spec (sections 4.2 and 5)
  has the descriptors processed strictly in registration order, one after the other,
  and an error of one of them ends the run.
\<close>

definition build_extensions :: "system \<Rightarrow> string \<Rightarrow> build_ext \<Rightarrow> extension list \<Rightarrow> world \<Rightarrow> world result" where
  "build_extensions sys CMAKE_EXE self exts w =
     for_each (build_extension sys CMAKE_EXE self) exts w"

section \<open>The header installer\<close>

text \<open>
  The command object \<^verbatim>\<open>self\<close> of \<^verbatim>\<open>InstallHeaders\<close>: the header roots of
  the distribution (\<^verbatim>\<open>None\<close> when none are declared), the install root, and the
  list of installed files the command reports.
\<close>

record install_headers =
  headers :: "string list option"
  install_dir :: string
  outfiles :: "string list"

text \<open>
  Modelled from the spec: \<^verbatim>\<open>mkpath\<close> and \<^verbatim>\<open>copy_file\<close> are methods of the
  base command and are not in the script. Section 4.3 of the spec has them ensure that
  a directory and its parents exist, and copy the bytes of a file verbatim to a
  destination; section 7 has a failure of either abort the install step. The copy
  gives back the name of the file it wrote. The options of the base command (dry run,
  leaving alone a destination that is not older than its source) are not modelled.
\<close>

definition mkpath :: "world \<Rightarrow> string \<Rightarrow> world result" where
  "mkpath w p =
     (case mkdirs (fs w) (resolve w p) of
        None \<Rightarrow> Inl (DistutilsFileError p, emit (Mkpath p) w)
      | Some t \<Rightarrow> Inr (emit (Mkpath p) (w\<lparr>fs := t\<rparr>)))"

definition copy_file :: "world \<Rightarrow> string \<Rightarrow> string \<Rightarrow> (string \<times> world) result" where
  "copy_file w src dst =
     (case lookup (fs w) (resolve w src) of
        Some (File d) \<Rightarrow>
          (case write_file (fs w) (resolve w dst) d of
             None \<Rightarrow> Inl (DistutilsFileError dst, w)
           | Some t \<Rightarrow> Inr (dst, emit (CopyFile src dst d) (w\<lparr>fs := t\<rparr>)))
      | _ \<Rightarrow> Inl (DistutilsFileError src, w))"

text \<open>
  \<^verbatim>\<open>os.walk(header)\<close> on the file system of the moment. The walk of one root is
  listed when the loop reaches that root.
\<close>

definition os_walk :: "world \<Rightarrow> string \<Rightarrow> (string \<times> string list \<times> string list) list" where
  "os_walk w dirpath =
     (if dirpath = [] then []
      else case lookup (fs w) (resolve w dirpath) of
             None \<Rightarrow> []
           | Some n \<Rightarrow> walk_tree dirpath n)"

text \<open>
  \<^verbatim>\<open>
  def run(self):
      headers = self.distribution.headers
      if not headers:
          return
      self.mkpath(self.install_dir)
      for header in headers:
          for dirpath, dirnames, filenames in os.walk(header):
              for file in filenames:
                  if file.endswith('.h'):
                      path = os.path.join(dirpath, file)
                      install_target = os.path.join(self.install_dir,
                                                    path.replace(header, ''))
                      self.mkpath(os.path.dirname(install_target))
                      (out, _) = self.copy_file(path, install_target)
                      self.outfiles.append(out)
  \<close>
  The three loops thread the world and the command object; \<open>install_file\<close> is the
  body of the innermost one.
\<close>

definition install_target :: "install_headers \<Rightarrow> string \<Rightarrow> string \<Rightarrow> string" where
  "install_target self header path = join (install_dir self) (replace path header [])"

definition install_file ::
  "string \<Rightarrow> string \<Rightarrow> string \<Rightarrow> world \<times> install_headers
     \<Rightarrow> (world \<times> install_headers) result" where
  "install_file header dirpath file st =
     (case st of (w, self) \<Rightarrow>
        if endswith file ''.h'' then
          (let path = join dirpath file;
               target = install_target self header path
           in case mkpath w (dirname target) of
                Inl e \<Rightarrow> Inl e
              | Inr w1 \<Rightarrow>
                  (case copy_file w1 path target of
                     Inl e \<Rightarrow> Inl e
                   | Inr (out, w2) \<Rightarrow> Inr (w2, self\<lparr>outfiles := outfiles self @ [out]\<rparr>)))
        else Inr (w, self))"

definition install_dir_files ::
  "string \<Rightarrow> string \<times> string list \<times> string list \<Rightarrow> world \<times> install_headers
     \<Rightarrow> (world \<times> install_headers) result" where
  "install_dir_files header triple st =
     (case triple of (dirpath, dirnames, filenames) \<Rightarrow>
        for_each (install_file header dirpath) filenames st)"

definition install_root ::
  "string \<Rightarrow> world \<times> install_headers \<Rightarrow> (world \<times> install_headers) result" where
  "install_root header st =
     for_each (install_dir_files header) (os_walk (fst st) header) st"

definition run :: "install_headers \<Rightarrow> world \<Rightarrow> (world \<times> install_headers) result" where
  "run self w =
     (case headers self of
        None \<Rightarrow> Inr (w, self)
      | Some hs \<Rightarrow>
          if hs = [] then Inr (w, self)
          else (case mkpath w (install_dir self) of
                  Inl e \<Rightarrow> Inl e
                | Inr w1 \<Rightarrow> for_each install_root hs (w1, self)))"

section \<open>The script\<close>

text \<open>
  \<^verbatim>\<open>
  os.environ['RMM_HEADER'] = 'cpp/thirdparty/rmm/include/rmm/rmm_api.h'
  os.environ['CUDF_INCLUDE_DIR'] = 'cpp/include/cudf'

  CMAKE_EXE = os.environ.get('CMAKE_EXE', shutil.which('cmake'))
  if not CMAKE_EXE:
      print('cmake executable not found. '
            'Set CMAKE_EXE environment or update your path')
      sys.exit(1)
  ...
  shutil.rmtree('build', ignore_errors=True)
  ...
  setup(..., long_description=open('README.md', encoding='UTF-8').read(), ...,
        ext_modules=cythonize(extensions),
        cmdclass={'build_ext': CMakeBuildExt, 'install_headers': InstallHeaders},
        headers=['cpp/include/'], ...)
  \<close>
\<close>

text \<open>The two assignments to \<^verbatim>\<open>os.environ\<close> at the top of the script.\<close>

definition export_locations :: "world \<Rightarrow> world" where
  "export_locations w =
     w\<lparr>environ := (environ w)
         (''RMM_HEADER'' \<mapsto> ''cpp/thirdparty/rmm/include/rmm/rmm_api.h'',
          ''CUDF_INCLUDE_DIR'' \<mapsto> ''cpp/include/cudf'')\<rparr>"

definition resolve_CMAKE_EXE :: "system \<Rightarrow> world \<Rightarrow> string option" where
  "resolve_CMAKE_EXE sys w =
     (case environ w ''CMAKE_EXE'' of None \<Rightarrow> which sys w ''cmake'' | Some v \<Rightarrow> Some v)"

text \<open>Python's \<^verbatim>\<open>not x\<close> on an optional string: \<^verbatim>\<open>None\<close> and the empty string.\<close>

fun falsy :: "string option \<Rightarrow> bool" where
  "falsy None = True"
| "falsy (Some v) = (v = [])"

definition rmtree :: "world \<Rightarrow> string \<Rightarrow> world" where
  "rmtree w p = emit (Rmtree p) (w\<lparr>fs := remove_tree (fs w) (resolve w p)\<rparr>)"

text \<open>The interpreter's own values the script reads.\<close>

record interpreter =
  platform :: string
  sys_version_info :: version_info
  python_lib :: string

definition extensions :: "interpreter \<Rightarrow> world \<Rightarrow> extension list" where
  "extensions py w =
     [new_CMakeExtension w ''rmm'' ''cpp'',
      new_CMakeExtension w ''cudf'' ''cpp'',
      Extension ''*'' [''python/cudf/bindings/*.pyx'']
        [python_lib py, distutils_dir_name (platform py) (sys_version_info py) ''lib'']
        [''cudf'']]"

text \<open>
  Modelled from the spec: \<^verbatim>\<open>setup()\<close> belongs to the packaging framework. The
  spec (section 2) has it run the orchestrator over the registered descriptors and,
  as a separate step, the installer over the registered header roots; which steps a
  run takes is the caller's choice, given here as the list of commands. An error of a
  step ends the run.
\<close>

datatype command =
    Command_build_ext build_ext
  | Command_install_headers string

fun run_command ::
  "system \<Rightarrow> string \<Rightarrow> extension list \<Rightarrow> string list \<Rightarrow> command \<Rightarrow> world \<Rightarrow> world result" where
  "run_command sys CMAKE_EXE ext_modules hdrs (Command_build_ext self) w =
     build_extensions sys CMAKE_EXE self ext_modules w"
| "run_command sys CMAKE_EXE ext_modules hdrs (Command_install_headers dir) w =
     (case run \<lparr>headers = Some hdrs, install_dir = dir, outfiles = []\<rparr> w of
        Inl e \<Rightarrow> Inl e
      | Inr (w', self') \<Rightarrow> Inr w')"

definition run_setup :: "system \<Rightarrow> string \<Rightarrow> extension list \<Rightarrow> string list \<Rightarrow> command list \<Rightarrow> world \<Rightarrow> world result" where
  "run_setup sys CMAKE_EXE ext_modules hdrs commands w =
     for_each (run_command sys CMAKE_EXE ext_modules hdrs) commands w"

definition missing_tool_message :: string where
  "missing_tool_message =
     ''cmake executable not found. Set CMAKE_EXE environment or update your path''"

definition setup_py :: "system \<Rightarrow> interpreter \<Rightarrow> command list \<Rightarrow> world \<Rightarrow> world result" where
  "setup_py sys py commands w =
     (let w1 = export_locations w;
          CMAKE_EXE = resolve_CMAKE_EXE sys w1
      in if falsy CMAKE_EXE then Inl (SystemExit 1, emit (Print missing_tool_message) w1)
         else
           (let w2 = rmtree w1 ''build''
            in case lookup (fs w2) (resolve w2 ''README.md'') of
                 Some (File d) \<Rightarrow>
                   run_setup sys (the CMAKE_EXE) (cythonize sys (extensions py w2))
                     [''cpp/include/''] commands w2
               | _ \<Rightarrow> Inl (OSError ''README.md'', w2)))"

section \<open>Reading the log of an install run\<close>

text \<open>The copies a log records, in order: source, destination, bytes.\<close>

fun copies :: "event list \<Rightarrow> (string \<times> string \<times> string) list" where
  "copies [] = []"
| "copies (CopyFile src dst d # evs) = (src, dst, d) # copies evs"
| "copies (e # evs) = copies evs"


definition copy_dsts :: "event list \<Rightarrow> string list" where
  "copy_dsts evs = map (\<lambda>c. fst (snd c)) (copies evs)"

definition copy_pairs :: "event list \<Rightarrow> (string \<times> string) list" where
  "copy_pairs evs = map (\<lambda>c. (fst c, fst (snd c))) (copies evs)"

text \<open>What a run added to the log.\<close>

definition new_events :: "world \<Rightarrow> world \<Rightarrow> event list" where
  "new_events w w' = drop (length (log w)) (log w')"

text \<open>The entries a walk lists as files, each with the directory path it is listed under.\<close>

definition walk_files ::
  "(string \<times> string list \<times> string list) list \<Rightarrow> (string \<times> string) list" where
  "walk_files triples =
     concat (map (\<lambda>(dirpath, dirnames, filenames). map (Pair dirpath) filenames) triples)"


text \<open>
  The file system a log leaves: the directories it made and the files it copied, one
  after the other. A copy in the log carries the bytes its source had at that moment.
\<close>

fun replay :: "string \<Rightarrow> node \<Rightarrow> event list \<Rightarrow> node option" where
  "replay cwd t [] = Some t"
| "replay cwd t (Mkpath p # evs) =
     (case mkdirs t (resolve_from cwd p) of
        None \<Rightarrow> None
      | Some t' \<Rightarrow> replay cwd t' evs)"
| "replay cwd t (CopyFile src dst d # evs) =
     (if lookup t (resolve_from cwd src) = Some (File d)
      then (case write_file t (resolve_from cwd dst) d of
              None \<Rightarrow> None
            | Some t' \<Rightarrow> replay cwd t' evs)
      else None)"
| "replay cwd t (e # evs) = replay cwd t evs"

text \<open>
  From one state of the installer to a later one: the working directory and the install
  root are the same, the log has grown by some events, the file system is what these
  events make of the earlier one, every copy among them is reported, and the copies
  are the pairs \<open>g\<close> gives for the install root.
\<close>

definition installs ::
  "(string \<Rightarrow> (string \<times> string) list) \<Rightarrow> world \<times> install_headers
     \<Rightarrow> world \<times> install_headers \<Rightarrow> bool" where
  "installs g st st' =
     (getcwd (fst st') = getcwd (fst st)
      \<and> install_dir (snd st') = install_dir (snd st)
      \<and> (\<exists>evs. log (fst st') = log (fst st) @ evs
             \<and> replay (getcwd (fst st)) (fs (fst st)) evs = Some (fs (fst st'))
             \<and> outfiles (snd st') = outfiles (snd st) @ copy_dsts evs
             \<and> copy_pairs evs = g (install_dir (snd st))))"

text \<open>The copies the installer makes for the files a walk of a root lists.\<close>

definition header_copies ::
  "string \<Rightarrow> (string \<times> string) list \<Rightarrow> string \<Rightarrow> (string \<times> string) list" where
  "header_copies header files dir =
     map (\<lambda>(dirpath, name). (join dirpath name, join dir (replace (join dirpath name) header [])))
       (filter (\<lambda>(dirpath, name). endswith name ''.h'') files)"



section \<open>A small world to run the script in\<close>

text \<open>
  A working directory \<^verbatim>\<open>/src\<close> on an otherwise empty file system, an orchestrator
  that builds in \<^verbatim>\<open>build/temp\<close> and puts its modules under \<^verbatim>\<open>build/lib\<close>, and
  a system in which \<^verbatim>\<open>cmake\<close> succeeds and \<^verbatim>\<open>make\<close> ends with status 2.
\<close>

definition example_world :: world where
  "example_world =
     \<lparr>fs = Dir [(''src'', Dir [])], getcwd = ''/src'', environ = Map.empty, log = []\<rparr>"

definition example_build_ext :: build_ext where
  "example_build_ext =
     \<lparr>debug = False, build_temp = ''build/temp'',
      get_ext_fullpath = (\<lambda>name. ''build/lib/'' @ name @ ''.so'')\<rparr>"


definition example_interpreter :: interpreter where
  "example_interpreter =
     \<lparr>platform = ''linux-x86_64'',
      sys_version_info = \<lparr>major = 3, minor = 7, micro = 0\<rparr>,
      python_lib = ''/usr/lib/python3.7/site-packages''\<rparr>"

definition example_system :: system where
  "example_system =
     \<lparr>which = (\<lambda>w name. None),
      child = (\<lambda>w args cwd env. (if hd args = ''make'' then Exited 2 else Exited 0, fs w)),
      super_build_extension = (\<lambda>w ext. (None, fs w)),
      cythonize = (\<lambda>exts. exts)\<rparr>"



text \<open>Two header roots with a file of the same name in each.\<close>

definition collision_world :: world where
  "collision_world =
     \<lparr>fs = Dir [(''src'', Dir [(''a'', Dir [(''x.h'', File ''first'')]),
                                (''b'', Dir [(''x.h'', File ''second'')])])],
      getcwd = ''/src'', environ = Map.empty, log = []\<rparr>"

definition collision_install_headers :: install_headers where
  "collision_install_headers =
     \<lparr>headers = Some [''a/'', ''b/''], install_dir = ''/inst'', outfiles = []\<rparr>"


definition collision_installed :: world where
  "collision_installed =
     \<lparr>fs = Dir [(''src'', Dir [(''a'', Dir [(''x.h'', File ''first'')]),
                                (''b'', Dir [(''x.h'', File ''second'')])]),
                (''inst'', Dir [(''x.h'', File ''second'')])],
      getcwd = ''/src'', environ = Map.empty,
      log = [Mkpath ''/inst'',
             Mkpath ''/inst'', CopyFile ''a/x.h'' ''/inst/x.h'' ''first'',
             Mkpath ''/inst'', CopyFile ''b/x.h'' ''/inst/x.h'' ''second'']\<rparr>"

section \<open>Facts about the string primitives\<close>

lemma startswith_Cons:
  "startswith s [c] = (case s of [] \<Rightarrow> False | d # _ \<Rightarrow> d = c)"
  by (cases s) (simp_all add: startswith_def)

lemma lstrip_one_char:
  "lstrip s [c] = dropWhile (\<lambda>d. d = c) s"
  by (simp add: lstrip_def)

lemma str_nat_digit: "n < 10 \<Longrightarrow> str_nat n = [digit n]"
  by (simp add: str_nat.simps)

lemma str_nat_examples: "str_nat 0 = ''0''" "str_nat 10 = ''10''" "str_nat 2026 = ''2026''"
  by code_simp+

lemma join_relative:
  "\<not> startswith b ''/'' \<Longrightarrow> a \<noteq> [] \<Longrightarrow> \<not> endswith a ''/'' \<Longrightarrow> join a b = a @ ''/'' @ b"
  by (simp add: join_def)

lemma join_absolute: "startswith b ''/'' \<Longrightarrow> join a b = b"
  by (simp add: join_def)

lemmas path_simps = abspath_def normpath_def join_def startswith_def endswith_def
  split_def norm_step_def Let_def dirname_def rstrip_def resolve_def resolve_from_def

lemma dropWhile_not_startswith: "\<not> startswith (dropWhile (\<lambda>d. d = c) s) [c]"
  by (induction s) (simp_all add: startswith_def)

lemma takeWhile_replicate:
  "takeWhile (\<lambda>d. d = c) s = replicate (length (takeWhile (\<lambda>d. d = c) s)) c"
  by (induction s) simp_all

lemma version_of_tag:
  "version (env(''GIT_DESCRIBE_TAG'' \<mapsto> t)) = dropWhile (\<lambda>d. d = CHR ''v'') t"
  by (simp add: version_def environ_get_def lstrip_one_char)

section \<open>The naming helper: claim C4\<close>

text \<open>
  C4, as the spec states it: for all three inputs the helper returns
  \<^verbatim>\<open>build/{logicalName}.{platformTag}-{major}.{minor}\<close>. This fails for a logical
  name that starts with a slash: \<^verbatim>\<open>os.path.join\<close> drops \<^verbatim>\<open>build\<close> before an
  absolute second component.
\<close>

theorem C4_absolute_name_counterexample:
  "distutils_dir_name ''linux-x86_64'' \<lparr>major = 3, minor = 7, micro = 0\<rparr> ''/opt/rmm''
     = ''/opt/rmm.linux-x86_64-3.7''
   \<and> distutils_dir_name ''linux-x86_64'' \<lparr>major = 3, minor = 7, micro = 0\<rparr> ''/opt/rmm''
     \<noteq> ''build/'' @ ''/opt/rmm'' @ ''.'' @ ''linux-x86_64'' @ ''-'' @ str_nat 3 @ ''.'' @ str_nat 7"
  by (simp add: distutils_dir_name_def join_def startswith_def endswith_def
        str_nat_digit digit_def)

text \<open>
  C4, amended: the helper is a total function of its three inputs, and for every
  logical name that does not start with a slash, every platform tag and every
  interpreter version it returns \<^verbatim>\<open>build/{logicalName}.{platformTag}-{major}.{minor}\<close>,
  the two numbers in decimal.
\<close>

theorem C4_distutils_dir_name:
  assumes "\<not> startswith dname ''/''"
  shows "distutils_dir_name tag v dname
           = ''build/'' @ dname @ ''.'' @ tag @ ''-'' @ str_nat (major v)
               @ ''.'' @ str_nat (minor v)"
  using assms
  by (cases dname) (simp_all add: distutils_dir_name_def join_def startswith_def endswith_def)

text \<open>The spec's example: \<^verbatim>\<open>name("rmm", "linux-x86_64", (3,7))\<close>.\<close>

theorem C4_distutils_dir_name_witness:
  "\<not> startswith ''rmm'' ''/''
   \<and> distutils_dir_name ''linux-x86_64'' \<lparr>major = 3, minor = 7, micro = 0\<rparr> ''rmm''
       = ''build/rmm.linux-x86_64-3.7''"
proof -
  have h: "\<not> startswith ''rmm'' ''/''"
    by (simp add: startswith_def)
  show ?thesis
    using h C4_distutils_dir_name [OF h, of "''linux-x86_64''" "\<lparr>major = 3, minor = 7, micro = 0\<rparr>"]
    by (simp add: str_nat_digit digit_def)
qed

section \<open>The release version: claim C8\<close>

text \<open>
  C8, as the spec states it: the version is the tag with one leading \<^verbatim>\<open>v\<close>
  removed if present. This fails for a tag with two: \<^verbatim>\<open>lstrip('v')\<close> removes both.
\<close>

theorem C8_two_v_counterexample:
  "version (Map.empty(''GIT_DESCRIBE_TAG'' \<mapsto> ''vv1.0'')) = ''1.0''
   \<and> spec_strip_one_v ''vv1.0'' = ''v1.0''
   \<and> version (Map.empty(''GIT_DESCRIBE_TAG'' \<mapsto> ''vv1.0'')) \<noteq> spec_strip_one_v ''vv1.0''"
  by (simp add: version_def environ_get_def lstrip_def spec_strip_one_v_def startswith_def)

text \<open>
  C8, amended: for every tag \<open>t\<close> the version is \<open>t\<close> with all its leading
  \<^verbatim>\<open>v\<close> characters removed: \<open>t\<close> is some number of \<^verbatim>\<open>v\<close>s followed by the
  version, and the version does not start with \<^verbatim>\<open>v\<close>. It is \<open>t\<close> with one
  leading \<^verbatim>\<open>v\<close> removed if present whenever \<open>t\<close> does not start with two.
\<close>

theorem C8_version_strips_all_v:
  "(\<exists>n. t = replicate n CHR ''v'' @ version (env(''GIT_DESCRIBE_TAG'' \<mapsto> t)))
   \<and> \<not> startswith (version (env(''GIT_DESCRIBE_TAG'' \<mapsto> t))) ''v''
   \<and> (\<not> startswith t ''vv'' \<longrightarrow>
        version (env(''GIT_DESCRIBE_TAG'' \<mapsto> t)) = spec_strip_one_v t)"
proof -
  let ?r = "dropWhile (\<lambda>d. d = CHR ''v'') t"
  have "t = takeWhile (\<lambda>d. d = CHR ''v'') t @ ?r"
    by simp
  then have "t = replicate (length (takeWhile (\<lambda>d. d = CHR ''v'') t)) CHR ''v'' @ ?r"
    using takeWhile_replicate [of "CHR ''v''" t] by simp
  then have 1: "\<exists>n. t = replicate n CHR ''v'' @ ?r" ..
  have 2: "\<not> startswith ?r ''v''"
    by (rule dropWhile_not_startswith)
  have 3: "\<not> startswith t ''vv'' \<longrightarrow> ?r = spec_strip_one_v t"
    by (cases t; cases "tl t") (auto simp add: spec_strip_one_v_def startswith_def)
  from 1 2 3 show ?thesis
    unfolding version_of_tag by blast
qed

theorem C8_version_strips_all_v_witness:
  "\<not> startswith ''v0.6.0'' ''vv''
   \<and> version (Map.empty(''GIT_DESCRIBE_TAG'' \<mapsto> ''v0.6.0'')) = ''0.6.0''"
  using C8_version_strips_all_v [of "''v0.6.0''" Map.empty]
  by (simp add: startswith_def spec_strip_one_v_def)

section \<open>The generator arguments: claims C5 and C9\<close>

lemma split_acc_tokens:
  "filter (\<lambda>x. x \<noteq> []) (split_acc sep acc s) = spec_tokens_acc (\<lambda>c. c = sep) acc s"
  by (induction s arbitrary: acc) auto

lemma split_tokens:
  "filter (\<lambda>x. x \<noteq> []) (split s sep) = spec_tokens (\<lambda>c. c = sep) s"
  by (simp add: split_def spec_tokens_def split_acc_tokens)

text \<open>
  C5, as the spec states it: the four fixed arguments are followed by the
  whitespace-split tokens of the environment variable. This fails for a value with a
  tab in it: \<^verbatim>\<open>split(' ')\<close> splits at the space character only, so
  \<^verbatim>\<open>a<TAB>b\<close> stays one argument where whitespace splitting gives two.
\<close>

theorem C5_tab_counterexample:
  "drop 4 (cmake_args ''cmake''
      (example_world\<lparr>environ :=
         Map.empty(''CMAKE_COMMON_VARIABLES'' \<mapsto> [CHR ''a'', CHR 0x09, CHR ''b''])\<rparr>)
      example_build_ext ''rmm'' ''/src/cpp'')
     = [[CHR ''a'', CHR 0x09, CHR ''b'']]
   \<and> spec_whitespace_tokens [CHR ''a'', CHR 0x09, CHR ''b''] = [''a'', ''b'']"
  by (simp add: cmake_args_def environ_get_def split_def spec_whitespace_tokens_def
        spec_tokens_def is_whitespace_def)

text \<open>
  C5, amended: for every native descriptor the generator arguments are the four
  elements \<^verbatim>\<open>CMAKE_EXE\<close>, the source directory,
  \<^verbatim>\<open>-DCMAKE_LIBRARY_OUTPUT_DIRECTORY=\<close> with the output directory and
  \<^verbatim>\<open>-DCMAKE_BUILD_TYPE=\<close> with \<^verbatim>\<open>Debug\<close> if the debug flag is set and
  \<^verbatim>\<open>Release\<close> otherwise, followed by the tokens of the environment variable
  \<^verbatim>\<open>CMAKE_COMMON_VARIABLES\<close> (empty when unset) split at the space character
  only, empty tokens dropped.
\<close>

theorem C5_cmake_args:
  "cmake_args exe w self name sourcedir =
     [exe, sourcedir,
      ''-DCMAKE_LIBRARY_OUTPUT_DIRECTORY='' @ output_dir w self name,
      ''-DCMAKE_BUILD_TYPE='' @ (if debug self then ''Debug'' else ''Release'')]
     @ spec_tokens (\<lambda>c. c = CHR '' '')
         (environ_get (environ w) ''CMAKE_COMMON_VARIABLES'' [])"
  by (simp add: cmake_args_def build_type_def split_tokens)




section \<open>The missing generator: claim C3\<close>

text \<open>
  C3: when the override variable \<^verbatim>\<open>CMAKE_EXE\<close> yields no executable (it is unset
  or empty) and the search of the path finds no \<^verbatim>\<open>cmake\<close>, the script ends with
  exit status 1 whatever commands were asked for: it has printed the missing-tool
  message and done nothing else, so no child process was started, no descriptor was
  processed and the file system is as it was.
\<close>

theorem C3_missing_cmake_aborts_first:
  assumes "falsy (environ w ''CMAKE_EXE'')"
    and "which sys (export_locations w) ''cmake'' = None"
  shows "setup_py sys py commands w
           = Inl (SystemExit 1, emit (Print missing_tool_message) (export_locations w))
    \<and> log (emit (Print missing_tool_message) (export_locations w))
           = log w @ [Print missing_tool_message]
    \<and> fs (emit (Print missing_tool_message) (export_locations w)) = fs w"
  using assms
  by (cases "environ w ''CMAKE_EXE''")
     (simp_all add: setup_py_def resolve_CMAKE_EXE_def export_locations_def Let_def emit_def)

theorem C3_missing_cmake_witness:
  "falsy (environ example_world ''CMAKE_EXE'')
   \<and> which example_system (export_locations example_world) ''cmake'' = None
   \<and> setup_py example_system example_interpreter
        [Command_build_ext example_build_ext, Command_install_headers ''/usr/include'']
        example_world
       = Inl (SystemExit 1, emit (Print missing_tool_message) (export_locations example_world))
   \<and> log (emit (Print missing_tool_message) (export_locations example_world))
       = [Print missing_tool_message]"
proof -
  have a: "falsy (environ example_world ''CMAKE_EXE'')"
    by (simp add: example_world_def)
  have b: "which example_system (export_locations example_world) ''cmake'' = None"
    by (simp add: example_system_def)
  show ?thesis
    using a b C3_missing_cmake_aborts_first [OF a b, of example_interpreter
        "[Command_build_ext example_build_ext, Command_install_headers ''/usr/include'']"]
    by (simp add: example_world_def)
qed

section \<open>A failing child ends the run: claim C2\<close>

lemma for_each_append:
  "for_each body (xs @ ys) st =
     (case for_each body xs st of Inl e \<Rightarrow> Inl e | Inr st' \<Rightarrow> for_each body ys st')"
  by (induction xs arbitrary: st) (auto split: sum.splits)

lemma for_each_stops:
  "for_each body xs st = Inr st' \<Longrightarrow> body x st' = Inl e
     \<Longrightarrow> for_each body (xs @ x # ys) st = Inl e"
  by (simp add: for_each_append)

text \<open>
  C2: let the descriptors before a native one be built without error, and let the
  build-temp directory be there or be made. If the configure child of the native
  descriptor ends with a status other than zero, or it ends with zero and the build
  child ends with a status other than zero, then the run over the whole list, whatever
  descriptors follow, ends with \<^verbatim>\<open>CalledProcessError\<close> for that child; the world it
  leaves is the one the failing child left, with that child as the last entry of the
  log: the child is not run again and nothing is done for a later descriptor.
\<close>

theorem C2_failing_child_aborts_run:
  assumes before: "build_extensions sys exe self pre w = Inr w1"
    and temp: "(if \<not> path_exists w1 (build_temp self) then makedirs w1 (build_temp self)
                else Inr w1) = Inr wA"
    and cargs: "cargs = cmake_args exe w1 self name src"
    and margs: "margs = [''make'', ''-j'', name]"
    and step: "(wF = wA \<and> fargs = cargs)
       \<or> (child sys wA cargs (build_temp self) (environ w1) = (Exited 0, t0)
           \<and> wF = emit (Spawn cargs (build_temp self) (environ w1)) (wA\<lparr>fs := t0\<rparr>)
           \<and> fargs = margs)"
    and failed: "child sys wF fargs (build_temp self) (environ w1) = (Exited rc, t)"
    and rc: "rc \<noteq> 0"
  shows "build_extensions sys exe self (pre @ CMakeExtension name src # post) w
           = Inl (CalledProcessError rc fargs,
                  emit (Spawn fargs (build_temp self) (environ w1)) (wF\<lparr>fs := t\<rparr>))
    \<and> log (emit (Spawn fargs (build_temp self) (environ w1)) (wF\<lparr>fs := t\<rparr>))
           = log wF @ [Spawn fargs (build_temp self) (environ w1)]"
proof -
  have "build_extension sys exe self (CMakeExtension name src) w1
         = Inl (CalledProcessError rc fargs,
                emit (Spawn fargs (build_temp self) (environ w1)) (wF\<lparr>fs := t\<rparr>))"
    using step
  proof
    assume "wF = wA \<and> fargs = cargs"
    then show ?thesis
      using temp cargs failed rc by (simp add: check_call_def Let_def)
  next
    assume "child sys wA cargs (build_temp self) (environ w1) = (Exited 0, t0)
           \<and> wF = emit (Spawn cargs (build_temp self) (environ w1)) (wA\<lparr>fs := t0\<rparr>)
           \<and> fargs = margs"
    then show ?thesis
      using temp cargs margs failed rc by (simp add: check_call_def Let_def)
  qed
  with before have "build_extensions sys exe self (pre @ CMakeExtension name src # post) w
           = Inl (CalledProcessError rc fargs,
                  emit (Spawn fargs (build_temp self) (environ w1)) (wF\<lparr>fs := t\<rparr>))"
    unfolding build_extensions_def by (rule for_each_stops)
  then show ?thesis
    by (simp add: emit_def)
qed

text \<open>
  The run of a native descriptor and an ordinary one, where \<^verbatim>\<open>cmake\<close> succeeds and
  \<^verbatim>\<open>make\<close> ends with status 2: the log ends with the \<^verbatim>\<open>make\<close> child, and the
  ordinary descriptor is never handed to the standard build.
\<close>

theorem C2_failing_child_witness:
  "build_extensions example_system ''cmake'' example_build_ext
      ([] @ CMakeExtension ''rmm'' ''/src/cpp'' # [Extension ''*'' [] [] []]) example_world
     = Inl (CalledProcessError 2 [''make'', ''-j'', ''rmm''],
            \<lparr>fs = Dir [(''src'', Dir [(''build'', Dir [(''temp'', Dir [])])])],
             getcwd = ''/src'', environ = Map.empty,
             log = [Makedirs ''build/temp'',
                    Spawn [''cmake'', ''/src/cpp'',
                           ''-DCMAKE_LIBRARY_OUTPUT_DIRECTORY=/src/build/lib'',
                           ''-DCMAKE_BUILD_TYPE=Release''] ''build/temp'' Map.empty,
                    Spawn [''make'', ''-j'', ''rmm''] ''build/temp'' Map.empty]\<rparr>)"
proof -
  let ?cargs = "[''cmake'', ''/src/cpp'', ''-DCMAKE_LIBRARY_OUTPUT_DIRECTORY=/src/build/lib'',
                 ''-DCMAKE_BUILD_TYPE=Release'']"
  let ?t = "Dir [(''src'', Dir [(''build'', Dir [(''temp'', Dir [])])])]"
  let ?wA = "\<lparr>fs = ?t, getcwd = ''/src'', environ = Map.empty, log = [Makedirs ''build/temp'']\<rparr>"
  let ?wF = "emit (Spawn ?cargs (build_temp example_build_ext) (environ example_world)) (?wA\<lparr>fs := ?t\<rparr>)"
  have before: "build_extensions example_system ''cmake'' example_build_ext [] example_world = Inr example_world"
    by (simp add: build_extensions_def)
  have bt: "build_temp example_build_ext = ''build/temp''"
    by (simp add: example_build_ext_def)
  have res: "resolve example_world ''build/temp'' = [''src'', ''build'', ''temp'']"
    by (simp add: example_world_def path_simps)
  have temp: "(if \<not> path_exists example_world (build_temp example_build_ext)
               then makedirs example_world (build_temp example_build_ext)
               else Inr example_world) = Inr ?wA"
    unfolding path_exists_def makedirs_def
    by (simp add: bt res) (simp add: bt example_world_def emit_def)
  have cargs: "?cargs = cmake_args ''cmake'' example_world example_build_ext ''rmm'' ''/src/cpp''"
    by (simp add: cmake_args_def example_world_def example_build_ext_def output_dir_def
          build_type_def environ_get_def path_simps)
  have margs: "[''make'', ''-j'', ''rmm''] = [''make'', ''-j'', ''rmm'']" ..
  have step: "(?wF = ?wA \<and> [''make'', ''-j'', ''rmm''] = ?cargs)
       \<or> (child example_system ?wA ?cargs (build_temp example_build_ext) (environ example_world) = (Exited 0, ?t)
           \<and> ?wF = emit (Spawn ?cargs (build_temp example_build_ext) (environ example_world)) (?wA\<lparr>fs := ?t\<rparr>)
           \<and> [''make'', ''-j'', ''rmm''] = [''make'', ''-j'', ''rmm''])"
    by (simp add: example_system_def)
  have failed: "child example_system ?wF [''make'', ''-j'', ''rmm''] (build_temp example_build_ext) (environ example_world) = (Exited 2, ?t)"
    by (simp add: example_system_def emit_def)
  have rc: "(2::int) \<noteq> 0" by simp
  show ?thesis
    using C2_failing_child_aborts_run [OF before temp cargs margs step failed rc, of "[Extension ''*'' [] [] []]"]
    by (simp add: emit_def example_build_ext_def example_world_def)
qed

section \<open>No header roots: claim C7\<close>

text \<open>
  C7: with no header roots declared (\<^verbatim>\<open>None\<close>, or the empty list) the installer
  returns at once and without error: the world it leaves is the world it found (same
  file system, nothing added to the log) and it reports no file.
\<close>

theorem C7_no_headers_no_effect:
  "run (self\<lparr>headers := None\<rparr>) w = Inr (w, self\<lparr>headers := None\<rparr>)
   \<and> run (self\<lparr>headers := Some []\<rparr>) w = Inr (w, self\<lparr>headers := Some []\<rparr>)"
  by (simp add: run_def)

section \<open>The installer, step by step\<close>

lemma copies_append: "copies (xs @ ys) = copies xs @ copies ys"
  by (induction xs rule: copies.induct) simp_all

lemma for_each_rel:
  assumes refl: "\<And>st. R st st"
    and trans: "\<And>a b c. R a b \<Longrightarrow> R b c \<Longrightarrow> R a c"
    and step: "\<And>x st st'. body x st = Inr st' \<Longrightarrow> R st st'"
    and "for_each body xs st = Inr st'"
  shows "R st st'"
  using assms(4)
proof (induction xs arbitrary: st)
  case Nil
  then show ?case by (simp add: refl)
next
  case (Cons x xs)
  from Cons.prems obtain st1 where b: "body x st = Inr st1" and r: "for_each body xs st1 = Inr st'"
    by (auto split: sum.splits)
  from step [OF b] Cons.IH [OF r] show ?case by (rule trans)
qed

lemma mkpath_effect:
  "mkpath w p = Inr w1 \<Longrightarrow>
     getcwd w1 = getcwd w \<and> environ w1 = environ w \<and> log w1 = log w @ [Mkpath p]
     \<and> mkdirs (fs w) (resolve w p) = Some (fs w1)"
  by (auto simp add: mkpath_def emit_def split: option.splits)

lemma copy_file_effect:
  "copy_file w src dst = Inr (out, w1) \<Longrightarrow>
     out = dst \<and> getcwd w1 = getcwd w \<and> environ w1 = environ w
     \<and> (\<exists>d. lookup (fs w) (resolve w src) = Some (File d)
            \<and> write_file (fs w) (resolve w dst) d = Some (fs w1)
            \<and> log w1 = log w @ [CopyFile src dst d])"
  by (auto simp add: copy_file_def emit_def split: option.splits node.splits)

lemma install_file_skip:
  "\<not> endswith file ''.h'' \<Longrightarrow> install_file header dirpath file st = Inr st"
  by (cases st) (simp add: install_file_def)

lemma install_file_copy:
  assumes h: "endswith file ''.h''"
    and ok: "install_file header dirpath file (w, self) = Inr (w', self')"
  shows "\<exists>d w1. mkpath w (dirname (install_target self header (join dirpath file))) = Inr w1
      \<and> copy_file w1 (join dirpath file) (install_target self header (join dirpath file))
           = Inr (install_target self header (join dirpath file), w')
      \<and> self' = self\<lparr>outfiles := outfiles self @ [install_target self header (join dirpath file)]\<rparr>"
proof -
  let ?t = "install_target self header (join dirpath file)"
  from ok h obtain w1 where m: "mkpath w (dirname ?t) = Inr w1"
    by (auto simp add: install_file_def Let_def split: sum.splits)
  with ok h obtain out where c: "copy_file w1 (join dirpath file) ?t = Inr (out, w')"
    and s: "self' = self\<lparr>outfiles := outfiles self @ [out]\<rparr>"
    by (auto simp add: install_file_def Let_def split: sum.splits prod.splits)
  from copy_file_effect [OF c] have "out = ?t" by simp
  with m c s show ?thesis by auto
qed

lemma install_file_events:
  assumes ok: "install_file header dirpath file (w, self) = Inr (w', self')"
  shows "getcwd w' = getcwd w \<and> install_dir self' = install_dir self \<and>
    (\<exists>evs. log w' = log w @ evs
      \<and> replay (getcwd w) (fs w) evs = Some (fs w')
      \<and> outfiles self' = outfiles self @ copy_dsts evs
      \<and> copy_pairs evs
          = (if endswith file ''.h''
             then [(join dirpath file, install_target self header (join dirpath file))]
             else []))"
proof (cases "endswith file ''.h''")
  case False
  with ok install_file_skip [OF False, of header dirpath "(w, self)"]
  show ?thesis by (auto simp add: copy_dsts_def copy_pairs_def)
next
  case True
  let ?t = "install_target self header (join dirpath file)"
  from install_file_copy [OF True ok] obtain w1 where
    m: "mkpath w (dirname ?t) = Inr w1" and
    c: "copy_file w1 (join dirpath file) ?t = Inr (?t, w')" and
    s: "self' = self\<lparr>outfiles := outfiles self @ [?t]\<rparr>"
    by auto
  from mkpath_effect [OF m] have m1: "getcwd w1 = getcwd w" "log w1 = log w @ [Mkpath (dirname ?t)]"
    "mkdirs (fs w) (resolve w (dirname ?t)) = Some (fs w1)" by simp_all
  from copy_file_effect [OF c] obtain d where c1: "getcwd w' = getcwd w1"
    "lookup (fs w1) (resolve w1 (join dirpath file)) = Some (File d)"
    "write_file (fs w1) (resolve w1 ?t) d = Some (fs w')"
    "log w' = log w1 @ [CopyFile (join dirpath file) ?t d]" by auto
  let ?evs = "[Mkpath (dirname ?t), CopyFile (join dirpath file) ?t d]"
  have "log w' = log w @ ?evs" using m1 c1 by simp
  moreover have "replay (getcwd w) (fs w) ?evs = Some (fs w')"
    using m1 c1 by (simp add: resolve_def)
  moreover have "outfiles self' = outfiles self @ copy_dsts ?evs"
    using s by (simp add: copy_dsts_def)
  moreover have "copy_pairs ?evs = [(join dirpath file, ?t)]"
    by (simp add: copy_pairs_def)
  ultimately show ?thesis using True m1 c1 s by auto
qed


lemma replay_append:
  "replay cwd t (xs @ ys) = (case replay cwd t xs of None \<Rightarrow> None | Some t' \<Rightarrow> replay cwd t' ys)"
  by (induction cwd t xs rule: replay.induct) (auto split: option.splits)

lemma installs_refl: "installs (\<lambda>dir. []) st st"
  by (simp add: installs_def copy_dsts_def copy_pairs_def)

lemma installs_trans:
  assumes "installs g1 a b" and "installs g2 b c"
  shows "installs (\<lambda>dir. g1 dir @ g2 dir) a c"
proof -
  from assms(1) obtain e1 where 1: "getcwd (fst b) = getcwd (fst a)" "install_dir (snd b) = install_dir (snd a)"
    "log (fst b) = log (fst a) @ e1" "replay (getcwd (fst a)) (fs (fst a)) e1 = Some (fs (fst b))"
    "outfiles (snd b) = outfiles (snd a) @ copy_dsts e1" "copy_pairs e1 = g1 (install_dir (snd a))"
    unfolding installs_def by blast
  from assms(2) obtain e2 where 2: "getcwd (fst c) = getcwd (fst b)" "install_dir (snd c) = install_dir (snd b)"
    "log (fst c) = log (fst b) @ e2" "replay (getcwd (fst b)) (fs (fst b)) e2 = Some (fs (fst c))"
    "outfiles (snd c) = outfiles (snd b) @ copy_dsts e2" "copy_pairs e2 = g2 (install_dir (snd b))"
    unfolding installs_def by blast
  have "log (fst c) = log (fst a) @ (e1 @ e2)" using 1 2 by simp
  moreover have "replay (getcwd (fst a)) (fs (fst a)) (e1 @ e2) = Some (fs (fst c))"
    using 1 2 by (simp add: replay_append)
  moreover have "outfiles (snd c) = outfiles (snd a) @ copy_dsts (e1 @ e2)"
    using 1 2 by (simp add: copy_dsts_def copies_append)
  moreover have "copy_pairs (e1 @ e2) = g1 (install_dir (snd a)) @ g2 (install_dir (snd a))"
    using 1 2 by (simp add: copy_pairs_def copies_append)
  ultimately show ?thesis
    unfolding installs_def using 1 2 by auto
qed

lemma for_each_installs:
  assumes step: "\<And>x st st'. body x st = Inr st' \<Longrightarrow> installs (g x) st st'"
    and "for_each body xs st = Inr st'"
  shows "installs (\<lambda>dir. concat (map (\<lambda>x. g x dir) xs)) st st'"
  using assms(2)
proof (induction xs arbitrary: st)
  case Nil
  then show ?case using installs_refl by simp
next
  case (Cons x xs)
  from Cons.prems obtain st1 where b: "body x st = Inr st1" and r: "for_each body xs st1 = Inr st'"
    by (auto split: sum.splits)
  from installs_trans [OF step [OF b] Cons.IH [OF r]] show ?case by simp
qed

lemma install_file_installs:
  assumes "install_file header dirpath file st = Inr st'"
  shows "installs (header_copies header [(dirpath, file)]) st st'"
proof -
  obtain w self w' self' where st: "st = (w, self)" "st' = (w', self')"
    by (cases st, cases st') auto
  from install_file_events [OF assms [unfolded st]] show ?thesis
    unfolding installs_def st header_copies_def install_target_def by auto
qed

lemma header_copies_concat:
  "concat (map (\<lambda>x. header_copies header (f x) dir) xs) = header_copies header (concat (map f xs)) dir"
  by (induction xs) (simp_all add: header_copies_def)

lemma install_dir_files_installs:
  assumes "install_dir_files header triple st = Inr st'"
  shows "installs (header_copies header (walk_files [triple])) st st'"
proof -
  obtain dirpath dirnames filenames where t: "triple = (dirpath, dirnames, filenames)"
    by (cases triple) auto
  from assms have "for_each (install_file header dirpath) filenames st = Inr st'"
    by (simp add: install_dir_files_def t)
  from for_each_installs [of "install_file header dirpath" "\<lambda>file. header_copies header [(dirpath, file)]", OF install_file_installs this]
  have "installs (\<lambda>dir. concat (map (\<lambda>file. header_copies header [(dirpath, file)] dir) filenames)) st st'" .
  moreover have "(\<lambda>dir. concat (map (\<lambda>file. header_copies header [(dirpath, file)] dir) filenames))
      = header_copies header (walk_files [triple])"
    by (rule ext) (simp add: header_copies_concat walk_files_def t map_concat comp_def)
  ultimately show ?thesis by simp
qed

lemma walk_files_concat: "concat (map (\<lambda>x. walk_files [x]) xs) = walk_files xs"
  by (induction xs) (simp_all add: walk_files_def)

lemma install_root_installs:
  assumes "install_root header st = Inr st'"
  shows "installs (header_copies header (walk_files (os_walk (fst st) header))) st st'"
proof -
  from assms have "for_each (install_dir_files header) (os_walk (fst st) header) st = Inr st'"
    by (simp add: install_root_def)
  from for_each_installs [of "install_dir_files header" "\<lambda>triple. header_copies header (walk_files [triple])", OF install_dir_files_installs this]
  show ?thesis by (simp add: header_copies_concat walk_files_concat)
qed

section \<open>A walk lists every file of the tree\<close>






section \<open>Suffixes\<close>



section \<open>Files survive what the installer does to the file system\<close>

lemma map_of_update: "map_of (AList.update k v al) = (map_of al)(k \<mapsto> v)"
  by (rule update_conv')

lemma write_file_lookup_same:
  "write_file t q x = Some t' \<Longrightarrow> lookup t' q = Some (File x)"
proof (induction t q x arbitrary: t' rule: write_file.induct)
  case (1 n d)
  then show ?case by simp
next
  case (2 d' c cs d)
  then show ?case by simp
next
  case (3 es c d)
  then show ?case
    by (auto simp add: map_of_update split: option.splits node.splits)
next
  case (4 es c c' cs d)
  from "4.prems" obtain sub sub' where s: "map_of es c = Some sub"
    and w: "write_file sub (c' # cs) d = Some sub'" and t: "t' = Dir (AList.update c sub' es)"
    by (auto split: option.splits)
  from "4.IH" [OF s w] show ?case
    by (simp add: t map_of_update)
qed

lemma write_file_lookup_other:
  "write_file t q x = Some t' \<Longrightarrow> p \<noteq> q \<Longrightarrow> lookup t p = Some (File d)
     \<Longrightarrow> lookup t' p = Some (File d)"
proof (induction t q x arbitrary: t' p rule: write_file.induct)
  case (1 n d0)
  then show ?case by simp
next
  case (2 d' c cs d0)
  then show ?case by simp
next
  case (3 es c d0)
  from "3.prems"(3) obtain c0 ps where p: "p = c0 # ps"
    by (cases p) auto
  from "3.prems"(1) have t: "t' = Dir (AList.update c (File d0) es)"
    and nd: "\<And>es'. map_of es c \<noteq> Some (Dir es')"
    by (auto split: option.splits node.splits)
  show ?case
  proof (cases "c0 = c")
    case False
    with "3.prems"(3) show ?thesis by (simp add: p t map_of_update)
  next
    case True
    with "3.prems"(2) p have "ps \<noteq> []" by auto
    then obtain c1 ps' where ps: "ps = c1 # ps'" by (cases ps) auto
    from "3.prems"(3) True p ps obtain sub where s: "map_of es c = Some sub"
      and l: "lookup sub (c1 # ps') = Some (File d)"
      by (auto split: option.splits)
    from l obtain es' where "sub = Dir es'" by (cases sub) auto
    with s nd show ?thesis by auto
  qed
next
  case (4 es c c' cs d0)
  from "4.prems"(1) obtain sub sub' where s: "map_of es c = Some sub"
    and w: "write_file sub (c' # cs) d0 = Some sub'" and t: "t' = Dir (AList.update c sub' es)"
    by (auto split: option.splits)
  from "4.prems"(3) obtain c0 ps where p: "p = c0 # ps"
    by (cases p) auto
  show ?case
  proof (cases "c0 = c")
    case False
    with "4.prems"(3) show ?thesis by (simp add: p t map_of_update)
  next
    case True
    with "4.prems"(2) p have ne: "ps \<noteq> c' # cs" by auto
    from "4.prems"(3) True p s have l: "lookup sub ps = Some (File d)" by simp
    from "4.IH" [OF s w ne l] show ?thesis
      by (simp add: p t True map_of_update)
  qed
qed

lemma mkdirs_lookup_file:
  "mkdirs t cs = Some t' \<Longrightarrow> lookup t p = Some (File d) \<Longrightarrow> lookup t' p = Some (File d)"
proof (induction t cs arbitrary: t' p rule: mkdirs.induct)
  case (1 d0 cs)
  then show ?case by simp
next
  case (2 es)
  then show ?case by simp
next
  case (3 es c cs)
  let ?sub0 = "case map_of es c of None \<Rightarrow> Dir [] | Some sub \<Rightarrow> sub"
  from "3.prems"(1) obtain sub' where m: "mkdirs ?sub0 cs = Some sub'"
    and t: "t' = Dir (AList.update c sub' es)"
    by (auto split: option.splits)
  from "3.prems"(2) obtain c0 ps where p: "p = c0 # ps"
    by (cases p) auto
  show ?case
  proof (cases "c0 = c")
    case False
    with "3.prems"(2) show ?thesis by (simp add: p t map_of_update)
  next
    case True
    from "3.prems"(2) True p obtain sub where s: "map_of es c = Some sub"
      and l: "lookup sub ps = Some (File d)"
      by (auto split: option.splits)
    from s have "?sub0 = sub" by simp
    with "3.IH" [OF m] l have "lookup sub' ps = Some (File d)" by simp
    then show ?thesis by (simp add: p t True map_of_update)
  qed
qed

section \<open>What a replayed log leaves at a path\<close>

lemma replay_keeps:
  "replay cwd t evs = Some t' \<Longrightarrow> lookup t p = Some (File x)
     \<Longrightarrow> \<forall>c \<in> set (copies evs). resolve_from cwd (fst (snd c)) \<noteq> p
     \<Longrightarrow> lookup t' p = Some (File x)"
proof (induction cwd t evs arbitrary: t' rule: replay.induct)
  case (1 cwd t)
  then show ?case by simp
next
  case (2 cwd t q evs)
  from "2.prems"(1) obtain t1 where m: "mkdirs t (resolve_from cwd q) = Some t1"
    and r: "replay cwd t1 evs = Some t'"
    by (auto split: option.splits)
  from mkdirs_lookup_file [OF m "2.prems"(2)] have "lookup t1 p = Some (File x)" .
  from "2.IH" [OF m r this] "2.prems"(3) show ?case by simp
next
  case (3 cwd t src dst d evs)
  from "3.prems"(1) obtain t1 where l: "lookup t (resolve_from cwd src) = Some (File d)"
    and w: "write_file t (resolve_from cwd dst) d = Some t1"
    and r: "replay cwd t1 evs = Some t'"
    by (auto split: option.splits if_splits)
  from "3.prems"(3) have ne: "p \<noteq> resolve_from cwd dst" by auto
  from write_file_lookup_other [OF w ne "3.prems"(2)] have "lookup t1 p = Some (File x)" .
  from "3.IH" [OF l w r this] "3.prems"(3) show ?case by simp
qed (auto)

lemma replay_last_copy:
  "replay cwd t evs = Some t' \<Longrightarrow> c \<in> set (copies evs)
     \<Longrightarrow> \<exists>c' \<in> set (copies evs).
           resolve_from cwd (fst (snd c')) = resolve_from cwd (fst (snd c))
           \<and> lookup t' (resolve_from cwd (fst (snd c))) = Some (File (snd (snd c')))"
proof (induction cwd t evs arbitrary: t' c rule: replay.induct)
  case (1 cwd t)
  then show ?case by simp
next
  case (2 cwd t q evs)
  from "2.prems"(1) obtain t1 where m: "mkdirs t (resolve_from cwd q) = Some t1"
    and r: "replay cwd t1 evs = Some t'"
    by (auto split: option.splits)
  from "2.IH" [OF m r] "2.prems"(2) show ?case by simp
next
  case (3 cwd t src dst d evs)
  from "3.prems"(1) obtain t1 where l: "lookup t (resolve_from cwd src) = Some (File d)"
    and w: "write_file t (resolve_from cwd dst) d = Some t1"
    and r: "replay cwd t1 evs = Some t'"
    by (auto split: option.splits if_splits)
  let ?p = "resolve_from cwd (fst (snd c))"
  show ?case
  proof (cases "\<exists>c2 \<in> set (copies evs). resolve_from cwd (fst (snd c2)) = ?p")
    case True
    then obtain c2 where c2: "c2 \<in> set (copies evs)" "resolve_from cwd (fst (snd c2)) = ?p"
      by auto
    from "3.IH" [OF l w r c2(1)] c2(2) show ?thesis by auto
  next
    case False
    with "3.prems"(2) have c: "c = (src, dst, d)" by auto
    from write_file_lookup_same [OF w] have "lookup t1 (resolve_from cwd dst) = Some (File d)" .
    from replay_keeps [OF r this] False c
    have "lookup t' (resolve_from cwd dst) = Some (File d)" by auto
    with c show ?thesis by auto
  qed
qed (auto)


section \<open>Removing the root string from a path\<close>




section \<open>The loop over the roots\<close>

lemma installs_some_trans:
  "\<exists>g. installs g a b \<Longrightarrow> \<exists>g. installs g b c \<Longrightarrow> \<exists>g. installs g a c"
  using installs_trans by blast

lemma install_roots_installs:
  assumes "for_each install_root hs st = Inr st'"
  shows "\<exists>g. installs g st st'"
proof (rule for_each_rel [where R = "\<lambda>a b. \<exists>g. installs g a b" and body = install_root,
      OF _ _ _ assms])
  show "\<And>st. \<exists>g. installs g st st" using installs_refl by blast
  show "\<And>a b c. \<exists>g. installs g a b \<Longrightarrow> \<exists>g. installs g b c \<Longrightarrow> \<exists>g. installs g a c"
    by (rule installs_some_trans)
  show "\<And>x st st'. install_root x st = Inr st' \<Longrightarrow> \<exists>g. installs g st st'"
    using install_root_installs by blast
qed

lemma installs_new_events:
  assumes "installs g (w, self) (w', self')"
  shows "log w' = log w @ new_events w w'
    \<and> replay (getcwd w) (fs w) (new_events w w') = Some (fs w')
    \<and> outfiles self' = outfiles self @ copy_dsts (new_events w w')
    \<and> copy_pairs (new_events w w') = g (install_dir self)
    \<and> getcwd w' = getcwd w \<and> install_dir self' = install_dir self"
proof -
  from assms obtain evs where e: "log w' = log w @ evs"
    "replay (getcwd w) (fs w) evs = Some (fs w')"
    "outfiles self' = outfiles self @ copy_dsts evs"
    "copy_pairs evs = g (install_dir self)"
    "getcwd w' = getcwd w" "install_dir self' = install_dir self"
    unfolding installs_def by auto
  from e(1) have "new_events w w' = evs" by (simp add: new_events_def)
  with e show ?thesis by simp
qed

section \<open>Paths below a root that ends in a slash\<close>







section \<open>Two install runs, step by step\<close>

lemma install_file_step:
  assumes "endswith file ''.h''"
    and "join dirpath file = path"
    and "install_target self header path = tgt"
    and "dirname tgt = dir"
    and "replay (getcwd w) (fs w) [Mkpath dir, CopyFile path tgt d] = Some t2"
  shows "install_file header dirpath file (w, self)
     = Inr (w\<lparr>fs := t2, log := log w @ [Mkpath dir, CopyFile path tgt d]\<rparr>,
            self\<lparr>outfiles := outfiles self @ [tgt]\<rparr>)"
  using assms
  by (auto simp add: install_file_def Let_def mkpath_def copy_file_def resolve_def emit_def
        split: option.splits if_splits)

lemma mkpath_step:
  assumes "replay (getcwd w) (fs w) [Mkpath p] = Some t"
  shows "mkpath w p = Inr (w\<lparr>fs := t, log := log w @ [Mkpath p]\<rparr>)"
  using assms by (auto simp add: mkpath_def resolve_def emit_def split: option.splits)


text \<open>The installer on two roots that hold a file of the same name.\<close>

lemma collision_run:
  "run collision_install_headers collision_world
   = Inr (collision_installed,
          collision_install_headers\<lparr>outfiles := [''/inst/x.h'', ''/inst/x.h'']\<rparr>)"
proof -
  let ?wi = collision_world
  let ?si = collision_install_headers
  let ?src = "(''src'', Dir [(''a'', Dir [(''x.h'', File ''first'')]),
                            (''b'', Dir [(''x.h'', File ''second'')])])"
  let ?wm = "?wi\<lparr>fs := Dir [?src, (''inst'', Dir [])], log := log ?wi @ [Mkpath ''/inst'']\<rparr>"
  let ?wa = "?wm\<lparr>fs := Dir [?src, (''inst'', Dir [(''x.h'', File ''first'')])],
                 log := log ?wm @ [Mkpath ''/inst'', CopyFile ''a/x.h'' ''/inst/x.h'' ''first'']\<rparr>"
  let ?sa = "?si\<lparr>outfiles := outfiles ?si @ [''/inst/x.h'']\<rparr>"
  let ?wb = "?wa\<lparr>fs := Dir [?src, (''inst'', Dir [(''x.h'', File ''second'')])],
                 log := log ?wa @ [Mkpath ''/inst'', CopyFile ''b/x.h'' ''/inst/x.h'' ''second'']\<rparr>"
  let ?sb = "?sa\<lparr>outfiles := outfiles ?sa @ [''/inst/x.h'']\<rparr>"
  have h: "headers ?si = Some [''a/'', ''b/'']" "install_dir ?si = ''/inst''"
    by (simp_all add: collision_install_headers_def)
  have m: "mkpath ?wi ''/inst'' = Inr ?wm"
    by (rule mkpath_step) code_simp
  have wa: "os_walk ?wm ''a/'' = [(''a/'', [], [''x.h''])]"
    by code_simp
  have a: "install_file ''a/'' ''a/'' ''x.h'' (?wm, ?si) = Inr (?wa, ?sa)"
    by (rule install_file_step) code_simp+
  have wb: "os_walk ?wa ''b/'' = [(''b/'', [], [''x.h''])]"
    by code_simp
  have b: "install_file ''b/'' ''b/'' ''x.h'' (?wa, ?sa) = Inr (?wb, ?sb)"
    by (rule install_file_step) code_simp+
  have ra: "install_root ''a/'' (?wm, ?si) = Inr (?wa, ?sa)"
    by (simp only: install_root_def fst_conv wa for_each.simps install_dir_files_def
          prod.case a sum.case)
  have rb: "install_root ''b/'' (?wa, ?sa) = Inr (?wb, ?sb)"
    by (simp only: install_root_def fst_conv wb for_each.simps install_dir_files_def
          prod.case b sum.case)
  have "run ?si ?wi = Inr (?wb, ?sb)"
    by (simp only: run_def h option.case list.simps if_False m sum.case for_each.simps ra rb)
  then show ?thesis
    by (simp add: collision_world_def collision_install_headers_def collision_installed_def)
qed

section \<open>The header filter: claim C10\<close>

lemma new_events_eq: "log w' = log w @ evs \<Longrightarrow> new_events w w' = evs"
  by (simp add: new_events_def)





section \<open>Two roots, one relative path: claim C6\<close>

text \<open>
  C6, as the spec states it: when two roots give the same relative path there is
  exactly one record of an installed header for that path after the run. This fails:
  the installer appends the destination to \<^verbatim>\<open>outfiles\<close> at every copy, so the
  path is reported twice.
\<close>

theorem C6_collision_counterexample:
  "run collision_install_headers collision_world
     = Inr (collision_installed,
            collision_install_headers\<lparr>outfiles := [''/inst/x.h'', ''/inst/x.h'']\<rparr>)
   \<and> count_list
        (outfiles (collision_install_headers\<lparr>outfiles := [''/inst/x.h'', ''/inst/x.h'']\<rparr>))
        ''/inst/x.h'' = 2"
  using collision_run by simp

text \<open>
  C6, amended: split the declared roots into the earlier and the later ones, at any
  place. In a run that ends without error the copies for the later roots are made
  after all the copies for the earlier ones. Every copy is reported: \<^verbatim>\<open>outfiles\<close>
  grows by one entry for each copy, in order, so a path that two roots are copied to is
  reported once for each. And every path that a later root is copied to holds, when
  the run ends, the bytes of a copy made for the later roots, whatever the earlier
  roots put there: the last copy to a path wins, without an error or a warning.
\<close>

theorem C6_last_copy_wins_every_copy_reported:
  assumes ok: "run self w = Inr (w', self')"
    and hs: "headers self = Some (earlier @ later)"
  shows "\<exists>w1 self1.
      for_each install_root later (w1, self1) = Inr (w', self')
      \<and> new_events w w' = new_events w w1 @ new_events w1 w'
      \<and> outfiles self' = outfiles self @ copy_dsts (new_events w w1)
                           @ copy_dsts (new_events w1 w')
      \<and> (\<forall>src dst d. (src, dst, d) \<in> set (copies (new_events w1 w')) \<longrightarrow>
            (\<exists>src' dst' d'. (src', dst', d') \<in> set (copies (new_events w1 w'))
                \<and> resolve w dst' = resolve w dst
                \<and> lookup (fs w') (resolve w dst) = Some (File d')))"
proof -
  have "\<exists>w0. for_each install_root (earlier @ later) (w0, self) = Inr (w', self')
      \<and> getcwd w0 = getcwd w
      \<and> (\<exists>pre. log w0 = log w @ pre \<and> copy_dsts pre = [])"
  proof (cases "earlier @ later = []")
    case True
    with ok hs have "w' = w" "self' = self" by (simp_all add: run_def)
    with True show ?thesis
      by (intro exI [of _ w]) (simp add: copy_dsts_def)
  next
    case False
    with ok hs obtain w0 where m: "mkpath w (install_dir self) = Inr w0"
      and l: "for_each install_root (earlier @ later) (w0, self) = Inr (w', self')"
      by (auto simp add: run_def split: sum.splits)
    from mkpath_effect [OF m] l show ?thesis
      by (intro exI [of _ w0]) (simp add: copy_dsts_def)
  qed
  then obtain w0 pre where l: "for_each install_root (earlier @ later) (w0, self) = Inr (w', self')"
    and c0: "getcwd w0 = getcwd w" and l0: "log w0 = log w @ pre" and p0: "copy_dsts pre = []"
    by auto
  from l obtain st1 where e: "for_each install_root earlier (w0, self) = Inr st1"
    and r: "for_each install_root later st1 = Inr (w', self')"
    by (auto simp add: for_each_append split: sum.splits)
  obtain w1 self1 where st1: "st1 = (w1, self1)" by (cases st1) auto
  from install_roots_installs [OF e] obtain g1 where "installs g1 (w0, self) (w1, self1)"
    unfolding st1 by auto
  from installs_new_events [OF this] have 1: "log w1 = log w0 @ new_events w0 w1"
    "outfiles self1 = outfiles self @ copy_dsts (new_events w0 w1)" "getcwd w1 = getcwd w0"
    by simp_all
  from install_roots_installs [OF r] obtain g2 where "installs g2 (w1, self1) (w', self')"
    unfolding st1 by auto
  from installs_new_events [OF this] have 2: "log w' = log w1 @ new_events w1 w'"
    "outfiles self' = outfiles self1 @ copy_dsts (new_events w1 w')"
    "replay (getcwd w1) (fs w1) (new_events w1 w') = Some (fs w')"
    by simp_all
  have "log w1 = log w @ (pre @ new_events w0 w1)"
    using 1(1) l0 by simp
  then have n1: "new_events w w1 = pre @ new_events w0 w1"
    by (rule new_events_eq)
  have "log w' = log w @ ((pre @ new_events w0 w1) @ new_events w1 w')"
    using 1(1) 2(1) l0 by simp
  then have "new_events w w' = (pre @ new_events w0 w1) @ new_events w1 w'"
    by (rule new_events_eq)
  with n1 have n: "new_events w w' = new_events w w1 @ new_events w1 w'"
    by simp
  have d1: "copy_dsts (new_events w w1) = copy_dsts (new_events w0 w1)"
    using n1 p0 by (simp add: copy_dsts_def copies_append)
  have out: "outfiles self' = outfiles self @ copy_dsts (new_events w w1)
                           @ copy_dsts (new_events w1 w')"
    using 1(2) 2(2) d1 by simp
  have cwd: "getcwd w1 = getcwd w" using 1(3) c0 by simp
  have last: "\<forall>src dst d. (src, dst, d) \<in> set (copies (new_events w1 w')) \<longrightarrow>
            (\<exists>src' dst' d'. (src', dst', d') \<in> set (copies (new_events w1 w'))
                \<and> resolve w dst' = resolve w dst
                \<and> lookup (fs w') (resolve w dst) = Some (File d'))"
  proof (intro allI impI)
    fix src dst d assume "(src, dst, d) \<in> set (copies (new_events w1 w'))"
    from replay_last_copy [OF 2(3) this] obtain c' where
      c': "c' \<in> set (copies (new_events w1 w'))"
      "resolve_from (getcwd w1) (fst (snd c')) = resolve_from (getcwd w1) dst"
      "lookup (fs w') (resolve_from (getcwd w1) dst) = Some (File (snd (snd c')))"
      by auto
    obtain src' dst' d' where "c' = (src', dst', d')" by (cases c') auto
    with c' cwd show "\<exists>src' dst' d'. (src', dst', d') \<in> set (copies (new_events w1 w'))
                \<and> resolve w dst' = resolve w dst
                \<and> lookup (fs w') (resolve w dst) = Some (File d')"
      by (auto simp add: resolve_def)
  qed
  from r st1 n out last show ?thesis by blast
qed

text \<open>
  The roots \<^verbatim>\<open>a/\<close> and \<^verbatim>\<open>b/\<close> with a file \<^verbatim>\<open>x.h\<close> each: two reports of
  \<^verbatim>\<open>/inst/x.h\<close>, which holds the bytes of \<^verbatim>\<open>b/x.h\<close>.
\<close>

theorem C6_last_copy_wins_witness:
  "run collision_install_headers collision_world
     = Inr (collision_installed,
            collision_install_headers\<lparr>outfiles := [''/inst/x.h'', ''/inst/x.h'']\<rparr>)
   \<and> headers collision_install_headers = Some ([''a/''] @ [''b/''])
   \<and> (\<exists>w1 self1.
        for_each install_root [''b/''] (w1, self1)
          = Inr (collision_installed,
                 collision_install_headers\<lparr>outfiles := [''/inst/x.h'', ''/inst/x.h'']\<rparr>)
        \<and> new_events collision_world collision_installed
            = new_events collision_world w1 @ new_events w1 collision_installed
        \<and> [''/inst/x.h'', ''/inst/x.h'']
            = copy_dsts (new_events collision_world w1)
              @ copy_dsts (new_events w1 collision_installed))
   \<and> lookup (fs collision_installed) (resolve collision_world ''/inst/x.h'')
       = Some (File ''second'')"
proof -
  have hs: "headers collision_install_headers = Some ([''a/''] @ [''b/''])"
    by (simp add: collision_install_headers_def)
  have o: "outfiles collision_install_headers = []"
    by (simp add: collision_install_headers_def)
  have l: "lookup (fs collision_installed) (resolve collision_world ''/inst/x.h'')
       = Some (File ''second'')"
    by code_simp
  from C6_last_copy_wins_every_copy_reported [OF collision_run hs] obtain w1 self1 where
    "for_each install_root [''b/''] (w1, self1)
        = Inr (collision_installed,
               collision_install_headers\<lparr>outfiles := [''/inst/x.h'', ''/inst/x.h'']\<rparr>)"
    "new_events collision_world collision_installed
        = new_events collision_world w1 @ new_events w1 collision_installed"
    "[''/inst/x.h'', ''/inst/x.h'']
        = copy_dsts (new_events collision_world w1)
          @ copy_dsts (new_events w1 collision_installed)"
    by (auto simp add: o)
  with collision_run hs l show ?thesis by blast
qed

section \<open>Every header under its root: claim C1\<close>




end
